theory Spec2Isabelle
  imports Main
begin

section \<open>JSON values\<close>

text \<open>
  Values that travel as JSON (tool input schemas, tool arguments). An object is the list of
  its entries in enumeration order (what \<open>Object.entries\<close> returns); its keys are
  pairwise distinct. Numbers are not inspected by any function modelled here beyond their
  type, so integers stand for them.
\<close>

datatype json =
    JNull
  | JBool bool
  | JNum int
  | JStr string
  | JArr "json list"
  | JObj "(string \<times> json) list"

section \<open>The data model (\<open>src/types/mcp.ts\<close>)\<close>

datatype transport_kind = Stdio | Sse

text \<open>\<open>MCPServerConfig\<close>: every field is optional in the source.\<close>

record MCPServerConfig =
  command :: "string option"
  args :: "string list option"
  env :: "(string \<times> string) list option"
  url :: "string option"
  headers :: "(string \<times> string) list option"
  transport :: "transport_kind option"

text \<open>\<open>MCPTool\<close>.\<close>

record MCPTool =
  name :: string
  description :: string
  inputSchema :: json

text \<open>
  \<open>MCPServer\<close>. The status is one of the four literals \<open>disconnected\<close>,
  \<open>connecting\<close>, \<open>connected\<close>, \<open>error\<close> for the type checker only; at run time
  and in the store it is a string. The field \<open>lastChecked\<close> is never persisted and is
  left out.
\<close>

record MCPServer =
  srv_id :: string
  srv_name :: string
  srv_config :: MCPServerConfig
  srv_enabled :: bool
  srv_status :: string
  srv_tools :: "MCPTool list"

section \<open>The relational store (\<open>src/lib/database.ts\<close>)\<close>

text \<open>
  A row of \<open>mcp_servers\<close> and a row of \<open>mcp_tools\<close>. The columns \<open>config\<close> and
  \<open>input_schema\<close> hold JSON text written by \<open>JSON.stringify\<close> and read back by
  \<open>JSON.parse\<close>; the rows keep the value that text denotes. The timestamp columns are
  read by no operation modelled here and are left out. \<open>description\<close> is the one
  nullable column.
\<close>

record server_row =
  row_id :: string
  row_name :: string
  row_config :: MCPServerConfig
  row_enabled :: nat
  row_status :: string

record tool_row =
  tool_id :: string
  tool_server_id :: string
  tool_name :: string
  tool_description :: "string option"
  tool_input_schema :: json

text \<open>
  The database: both tables in rowid order, and the connection's \<open>foreign_keys\<close> pragma.
  The source never sets the pragma, so its value is whatever the SQLite build defaults to;
  it is kept as part of the state and every result below says where it matters.
  \<open>mcp_tools.server_id\<close> references \<open>mcp_servers.id\<close> with \<open>ON DELETE CASCADE\<close>.
\<close>

record database =
  mcp_servers :: "server_row list"
  mcp_tools :: "tool_row list"
  foreign_keys :: bool

datatype sql_error = ForeignKeyConstraintFailed

subsection \<open>Prepared statements\<close>

definition server_exists :: "string \<Rightarrow> database \<Rightarrow> bool" where
  "server_exists i db = (i \<in> set (map row_id (mcp_servers db)))"

text \<open>
  \<open>INSERT OR REPLACE INTO mcp_servers\<close>: a row with the same primary key is deleted
  first (with foreign keys enforced that delete cascades to the server's tools), then the
  new row is appended.
\<close>

definition insertServer_stmt :: "server_row \<Rightarrow> database \<Rightarrow> database" where
  "insertServer_stmt r db =
     db\<lparr> mcp_servers := filter (\<lambda>s. row_id s \<noteq> row_id r) (mcp_servers db) @ [r],
         mcp_tools := (if foreign_keys db \<and> server_exists (row_id r) db
                       then filter (\<lambda>t. tool_server_id t \<noteq> row_id r) (mcp_tools db)
                       else mcp_tools db) \<rparr>"

text \<open>
  \<open>INSERT OR REPLACE INTO mcp_tools\<close>: fails when foreign keys are enforced and the
  referenced server is absent; otherwise replaces the row with the same primary key.
\<close>

definition insertTool_stmt :: "tool_row \<Rightarrow> database \<Rightarrow> sql_error + database" where
  "insertTool_stmt r db =
     (if foreign_keys db \<and> \<not> server_exists (tool_server_id r) db
      then Inl ForeignKeyConstraintFailed
      else Inr (db\<lparr> mcp_tools := filter (\<lambda>t. tool_id t \<noteq> tool_id r) (mcp_tools db) @ [r] \<rparr>))"

definition getServer_stmt :: "string \<Rightarrow> database \<Rightarrow> server_row option" where
  "getServer_stmt i db = find (\<lambda>s. row_id s = i) (mcp_servers db)"

definition getToolsByServer_stmt :: "string \<Rightarrow> database \<Rightarrow> tool_row list" where
  "getToolsByServer_stmt sid db = filter (\<lambda>t. tool_server_id t = sid) (mcp_tools db)"

definition updateServerStatus_stmt :: "string \<Rightarrow> string \<Rightarrow> database \<Rightarrow> database" where
  "updateServerStatus_stmt st i db =
     db\<lparr> mcp_servers := map (\<lambda>s. if row_id s = i then s\<lparr> row_status := st \<rparr> else s) (mcp_servers db) \<rparr>"

definition deleteServer_stmt :: "string \<Rightarrow> database \<Rightarrow> database" where
  "deleteServer_stmt i db =
     db\<lparr> mcp_servers := filter (\<lambda>s. row_id s \<noteq> i) (mcp_servers db),
         mcp_tools := (if foreign_keys db \<and> server_exists i db
                       then filter (\<lambda>t. tool_server_id t \<noteq> i) (mcp_tools db)
                       else mcp_tools db) \<rparr>"

definition deleteToolsByServer_stmt :: "string \<Rightarrow> database \<Rightarrow> database" where
  "deleteToolsByServer_stmt sid db =
     db\<lparr> mcp_tools := filter (\<lambda>t. tool_server_id t \<noteq> sid) (mcp_tools db) \<rparr>"

subsection \<open>\<open>MCPDatabase\<close>\<close>

definition saveServer :: "MCPServer \<Rightarrow> database \<Rightarrow> database" where
  "saveServer server db =
     insertServer_stmt
       \<lparr> row_id = srv_id server, row_name = srv_name server, row_config = srv_config server,
         row_enabled = (if srv_enabled server then 1 else 0), row_status = srv_status server \<rparr> db"

definition getServer :: "string \<Rightarrow> database \<Rightarrow> MCPServer option" where
  "getServer i db =
     (case getServer_stmt i db of
        None \<Rightarrow> None
      | Some row \<Rightarrow>
          Some \<lparr> srv_id = row_id row, srv_name = row_name row, srv_config = row_config row,
                 srv_enabled = (row_enabled row \<noteq> 0), srv_status = row_status row,
                 srv_tools = [] \<rparr>)"

definition updateServerStatus :: "string \<Rightarrow> string \<Rightarrow> database \<Rightarrow> database" where
  "updateServerStatus i st db = updateServerStatus_stmt st i db"

definition deleteServer :: "string \<Rightarrow> database \<Rightarrow> database" where
  "deleteServer i db = deleteServer_stmt i (deleteToolsByServer_stmt i db)"

text \<open>The synthetic primary key of a tool row: \<open>`${serverId}_${tool.name}`\<close>.\<close>

definition toolRowId :: "string \<Rightarrow> string \<Rightarrow> string" where
  "toolRowId serverId n = serverId @ ''_'' @ n"

definition toolRow :: "string \<Rightarrow> MCPTool \<Rightarrow> tool_row" where
  "toolRow serverId tool =
     \<lparr> tool_id = toolRowId serverId (name tool), tool_server_id = serverId,
       tool_name = name tool, tool_description = Some (description tool),
       tool_input_schema = inputSchema tool \<rparr>"

text \<open>The body of \<open>insertToolTransaction\<close>: the loop stops at the first statement that throws.\<close>

fun insertTools :: "string \<Rightarrow> MCPTool list \<Rightarrow> database \<Rightarrow> sql_error + database" where
  "insertTools serverId [] db = Inr db"
| "insertTools serverId (tool # rest) db =
     (case insertTool_stmt (toolRow serverId tool) db of
        Inl e \<Rightarrow> Inl e
      | Inr db' \<Rightarrow> insertTools serverId rest db')"

text \<open>
  \<open>db.transaction(f)\<close>: runs \<open>f\<close>; when it throws, the database is rolled back to
  where the transaction began and the error is thrown on.
\<close>

definition transaction :: "(database \<Rightarrow> sql_error + database) \<Rightarrow> database \<Rightarrow> sql_error option \<times> database" where
  "transaction f db = (case f db of Inl e \<Rightarrow> (Some e, db) | Inr db' \<Rightarrow> (None, db'))"

text \<open>
  \<open>saveTools\<close>: the delete runs as a statement of its own, then the inserts run in one
  transaction. The result is the error thrown, if any, and the database left behind.
\<close>

definition saveTools :: "string \<Rightarrow> MCPTool list \<Rightarrow> database \<Rightarrow> sql_error option \<times> database" where
  "saveTools serverId tools db =
     transaction (insertTools serverId tools) (deleteToolsByServer_stmt serverId db)"

definition getToolsByServer :: "string \<Rightarrow> database \<Rightarrow> MCPTool list" where
  "getToolsByServer serverId db =
     map (\<lambda>row. \<lparr> name = tool_name row,
                  description = (case tool_description row of
                                   None \<Rightarrow> ''''
                                 | Some d \<Rightarrow> if d = '''' then '''' else d),
                  inputSchema = tool_input_schema row \<rparr>)
         (getToolsByServer_stmt serverId db)"

definition getServerWithTools :: "string \<Rightarrow> database \<Rightarrow> MCPServer option" where
  "getServerWithTools i db =
     (case getServer i db of
        None \<Rightarrow> None
      | Some server \<Rightarrow> Some (server\<lparr> srv_tools := getToolsByServer i db \<rparr>))"

subsection \<open>Auxiliary notions for the store\<close>

text \<open>Of the tools that share a name, only the last one of the list is kept.\<close>

fun keepLast :: "MCPTool list \<Rightarrow> MCPTool list" where
  "keepLast [] = []"
| "keepLast (t # ts) = (if name t \<in> set (map name ts) then keepLast ts else t # keepLast ts)"

text \<open>What the loop of \<open>insertToolTransaction\<close> does to the table when no statement fails.\<close>

definition upsertRows :: "string \<Rightarrow> MCPTool list \<Rightarrow> tool_row list \<Rightarrow> tool_row list" where
  "upsertRows S ts rows =
     foldl (\<lambda>rs t. filter (\<lambda>r. tool_id r \<noteq> toolRowId S (name t)) rs @ [toolRow S t]) rows ts"

text \<open>An insert for server \<open>S\<close> passes the foreign-key check.\<close>

definition fk_ok :: "string \<Rightarrow> database \<Rightarrow> bool" where
  "fk_ok S db = (\<not> foreign_keys db \<or> server_exists S db)"

text \<open>
  No row of another server carries a primary key that \<open>saveTools S ts\<close> is about to write.
\<close>

definition no_id_clash :: "string \<Rightarrow> MCPTool list \<Rightarrow> database \<Rightarrow> bool" where
  "no_id_clash S ts db =
     (\<forall>r \<in> set (mcp_tools db). tool_server_id r \<noteq> S \<longrightarrow>
        tool_id r \<notin> set (map (\<lambda>t. toolRowId S (name t)) ts))"

text \<open>
  The database states that \<open>saveTools\<close> commits, in order: the delete statement runs
  outside any transaction and commits on its own; the insert transaction commits when its
  body returns and commits nothing when it throws.
\<close>

definition saveTools_commits :: "string \<Rightarrow> MCPTool list \<Rightarrow> database \<Rightarrow> database list" where
  "saveTools_commits serverId tools db =
     (let db1 = deleteToolsByServer_stmt serverId db in
      db1 # (case insertTools serverId tools db1 of Inl _ \<Rightarrow> [] | Inr db2 \<Rightarrow> [db2]))"

subsection \<open>Sample data\<close>

definition stdioConfig :: MCPServerConfig where
  "stdioConfig =
     \<lparr> command = Some ''node'', args = Some [''server.js''], env = None,
       url = None, headers = None, transport = Some Stdio \<rparr>"

definition serverRow :: "string \<Rightarrow> server_row" where
  "serverRow i =
     \<lparr> row_id = i, row_name = ''demo'', row_config = stdioConfig,
       row_enabled = 1, row_status = ''connected'' \<rparr>"

definition mkTool :: "string \<Rightarrow> string \<Rightarrow> MCPTool" where
  "mkTool n d = \<lparr> name = n, description = d, inputSchema = JObj [(''type'', JStr ''object'')] \<rparr>"

text \<open>Two registered servers; the second one has a tool stored.\<close>

definition sampleDb :: database where
  "sampleDb =
     \<lparr> mcp_servers = [serverRow ''s1'', serverRow ''s2''],
       mcp_tools = [toolRow ''s2'' (mkTool ''k'' ''kept'')],
       foreign_keys = True \<rparr>"

section \<open>JavaScript values at the boundary\<close>

text \<open>
  A thrown value: an \<open>Error\<close> object with its message and its enumerable own properties
  (what \<open>JSON.stringify\<close> shows of it), or any other value.
\<close>

datatype thrown = ErrorObj string json | NonError json

text \<open>\<open>error instanceof Error ? error.message : 'Unknown error'\<close>.\<close>

definition messageOrUnknown :: "thrown \<Rightarrow> string" where
  "messageOrUnknown e = (case e of ErrorObj m _ \<Rightarrow> m | NonError _ \<Rightarrow> ''Unknown error'')"

definition thrownJson :: "thrown \<Rightarrow> json" where
  "thrownJson e = (case e of ErrorObj _ props \<Rightarrow> props | NonError v \<Rightarrow> v)"

text \<open>\<open>new Error(msg)\<close>: no enumerable own property.\<close>

definition newError :: "string \<Rightarrow> thrown" where
  "newError msg = ErrorObj msg (JObj [])"

text \<open>
  A promise as seen by the code that awaits it: it never settles, or it settles so many
  milliseconds after it was created, fulfilled with a value or rejected with a thrown value.
\<close>

datatype 'a outcome = Fulfilled 'a | Rejected thrown

datatype 'a promise = Never | At nat "'a outcome"

text \<open>Truthiness of a JSON value.\<close>

fun truthy :: "json \<Rightarrow> bool" where
  "truthy JNull = False"
| "truthy (JBool b) = b"
| "truthy (JNum n) = (n \<noteq> 0)"
| "truthy (JStr s) = (s \<noteq> [])"
| "truthy (JArr _) = True"
| "truthy (JObj _) = True"

text \<open>\<open>String.prototype.includes\<close>.\<close>

primrec str_includes :: "string \<Rightarrow> string \<Rightarrow> bool" where
  "str_includes [] sub = (sub = [])"
| "str_includes (c # cs) sub = (take (length sub) (c # cs) = sub \<or> str_includes cs sub)"

section \<open>The connection table (\<open>src/lib/mcp-connections.ts\<close>)\<close>

text \<open>
  The protocol client and the child process are objects of libraries outside the
  repository; they are modelled by what their methods do when the code calls them.
  \<open>close()\<close> is asynchronous in the client library (the on-demand execute route awaits
  it): it either throws at the call or returns a promise. \<open>kill()\<close> is synchronous: it
  returns, or throws.
\<close>

datatype close_behaviour = CloseThrows thrown | CloseReturns "unit promise"

record remote_tool =
  rt_name :: string
  rt_description :: "string option"
  rt_inputSchema :: "json option"

record Client =
  connect :: "unit promise"
  listTools :: "remote_tool list option promise"
  callTool :: "string \<Rightarrow> json \<Rightarrow> json promise"
  close :: close_behaviour

record ChildProcess =
  kill :: "thrown option"

record connection =
  client :: Client
  process :: "ChildProcess option"

type_synonym connections = "string \<rightharpoonup> connection"

definition setConnection :: "string \<Rightarrow> Client \<Rightarrow> ChildProcess option \<Rightarrow> connections \<Rightarrow> connections" where
  "setConnection serverId c p conns = conns(serverId \<mapsto> \<lparr> client = c, process = p \<rparr>)"

definition getConnection :: "string \<Rightarrow> connections \<Rightarrow> connection option" where
  "getConnection serverId conns = conns serverId"

definition hasConnection :: "string \<Rightarrow> connections \<Rightarrow> bool" where
  "hasConnection serverId conns = (conns serverId \<noteq> None)"

text \<open>
  What \<open>deleteConnection\<close> leaves behind besides the table: the errors its \<open>catch\<close>
  block passed to \<open>console.warn\<close>, and the rejections of promises it created and
  dropped without awaiting them.
\<close>

record cleanup =
  warned :: "thrown list"
  unhandled :: "thrown list"

definition rejection :: "'a promise \<Rightarrow> thrown list" where
  "rejection p = (case p of At _ (Rejected e) \<Rightarrow> [e] | _ \<Rightarrow> [])"

text \<open>
  The \<open>try\<close> block of \<open>deleteConnection\<close>: the rejections of the promises it dropped,
  and whether it threw (\<open>Inl\<close>) or ran to its end.
\<close>

definition closeAndKill :: "connection \<Rightarrow> thrown list \<times> (thrown + unit)" where
  "closeAndKill c =
     (case close (client c) of
        CloseThrows e \<Rightarrow> ([], Inl e)
      | CloseReturns p \<Rightarrow>
          (rejection p,
           case process c of
             None \<Rightarrow> Inr ()
           | Some proc \<Rightarrow> (case kill proc of Some e \<Rightarrow> Inl e | None \<Rightarrow> Inr ())))"

text \<open>
  \<open>deleteConnection\<close>. The result is \<open>Inl\<close> when the call throws. The \<open>catch\<close>
  block warns; the entry is deleted after the \<open>try\<close> statement either way.
\<close>

definition deleteConnection :: "string \<Rightarrow> connections \<Rightarrow> thrown + (cleanup \<times> connections)" where
  "deleteConnection serverId conns =
     (case conns serverId of
        None \<Rightarrow> Inr (\<lparr> warned = [], unhandled = [] \<rparr>, conns)
      | Some c \<Rightarrow>
          (case closeAndKill c of
             (dropped, Inl error) \<Rightarrow>
               Inr (\<lparr> warned = [error], unhandled = dropped \<rparr>, conns(serverId := None))
           | (dropped, Inr _) \<Rightarrow>
               Inr (\<lparr> warned = [], unhandled = dropped \<rparr>, conns(serverId := None))))"

section \<open>The route handlers\<close>

text \<open>The state shared by the handlers: the connection table and the store.\<close>

record app_state =
  conn_table :: connections
  store :: database

text \<open>
  The JSON answers of the handlers, by shape: an error (HTTP status, \<open>error\<close>,
  \<open>details\<close> when present); the result of a tool call (\<open>toolName\<close>, \<open>result\<close>,
  \<open>timestamp\<close>); the result of a connection test (\<open>tools\<close> and the \<open>name\<close>,
  \<open>version\<close>, \<open>description\<close> of \<open>serverInfo\<close>); the confirmation of a delete
  (\<open>message\<close>). The last three have \<open>success: true\<close> and status 200.
\<close>

datatype response =
    ErrorResponse nat string "json option"
  | ToolResult string json string
  | ConnectionTested "MCPTool list" string string string
  | ServerDeleted string

record MCPToolCall =
  toolName :: string
  arguments :: json
  serverId :: string

subsection \<open>Tool execution over a stored connection\<close>

text \<open>The test of the \<open>catch\<close> block: is the connection taken to be broken?\<close>

definition connectionLooksBroken :: "thrown \<Rightarrow> bool" where
  "connectionLooksBroken toolError =
     (case toolError of
        ErrorObj m _ \<Rightarrow>
          str_includes m ''connection'' \<or> str_includes m ''closed'' \<or> str_includes m ''disconnected''
      | NonError _ \<Rightarrow> False)"

text \<open>\<open>result.content || result\<close>; reading a property of \<open>null\<close> throws.\<close>

definition contentOr :: "json \<Rightarrow> thrown + json" where
  "contentOr result =
     (case result of
        JNull \<Rightarrow> Inl (newError ''Cannot read properties of null (reading 'content')'')
      | JObj kvs \<Rightarrow>
          (case map_of kvs ''content'' of
             Some c \<Rightarrow> Inr (if truthy c then c else result)
           | None \<Rightarrow> Inr result)
      | _ \<Rightarrow> Inr result)"

text \<open>The \<open>catch (toolError)\<close> block of the handler.\<close>

definition toolErrorBranch :: "thrown \<Rightarrow> string \<Rightarrow> app_state \<Rightarrow> response option \<times> app_state" where
  "toolErrorBranch toolError sid st =
     (if connectionLooksBroken toolError
      then (case deleteConnection sid (conn_table st) of
              Inl error \<Rightarrow>
                (Some (ErrorResponse 500 ''Failed to execute MCP tool''
                         (Some (JStr (messageOrUnknown error)))), st)
            | Inr (log, conns') \<Rightarrow>
                (Some (ErrorResponse 400 (''Tool execution failed: '' @ messageOrUnknown toolError)
                         (Some (thrownJson toolError))),
                 st\<lparr> conn_table := conns' \<rparr>))
      else (Some (ErrorResponse 400 (''Tool execution failed: '' @ messageOrUnknown toolError)
                    (Some (thrownJson toolError))),
            st))"

text \<open>
  \<open>POST\<close> of the execute route that uses \<open>mcpConnectionManager\<close>. \<open>now\<close> is the
  time stamp the handler reads. No response is given while the awaited call never settles.
\<close>

definition POST_execute :: "string \<Rightarrow> MCPToolCall \<Rightarrow> app_state \<Rightarrow> response option \<times> app_state" where
  "POST_execute now req st =
     (if toolName req = [] \<or> serverId req = []
      then (Some (ErrorResponse 400 ''Tool name and server ID are required'' None), st)
      else
        (case getConnection (serverId req) (conn_table st) of
           None \<Rightarrow>
             (Some (ErrorResponse 400
                ''No active connection found for server. Please test connection first to establish a connection.''
                None), st)
         | Some c \<Rightarrow>
             (case callTool (client c) (toolName req) (arguments req) of
                Never \<Rightarrow> (None, st)
              | At _ (Rejected toolError) \<Rightarrow> toolErrorBranch toolError (serverId req) st
              | At _ (Fulfilled result) \<Rightarrow>
                  (case contentOr result of
                     Inl toolError \<Rightarrow> toolErrorBranch toolError (serverId req) st
                   | Inr content \<Rightarrow> (Some (ToolResult (toolName req) content now), st)))))"

subsection \<open>Deleting a server\<close>

definition POST_delete_server :: "string \<Rightarrow> app_state \<Rightarrow> response \<times> app_state" where
  "POST_delete_server sid st =
     (if sid = []
      then (ErrorResponse 400 ''Server ID is required'' None, st)
      else
        (case deleteConnection sid (conn_table st) of
           Inl error \<Rightarrow>
             (ErrorResponse 500 ''Failed to delete server'' (Some (JStr (messageOrUnknown error))), st)
         | Inr (log, conns') \<Rightarrow>
             (ServerDeleted ''Server deleted successfully'',
              \<lparr> conn_table = conns', store = deleteServer sid (store st) \<rparr>)))"

subsection \<open>Connecting\<close>

text \<open>
  What the world outside decides when a handler connects: whether \<open>new URL(url)\<close>
  accepts the configured url, the client that is constructed (with what its methods will
  do), and the \<open>process\<close> property found on the stdio transport.
\<close>

record connect_env =
  url_parses :: bool
  new_client :: Client
  transport_process :: "ChildProcess option"

text \<open>
  \<open>Promise.race([connectPromise, timeoutPromise])\<close>, the timer set to 10000 ms when the
  connect call is made. Time is counted in milliseconds from that call; the result is when
  the race settles and how. A connect that settles at 10000 exactly is taken to lose.
\<close>

definition raceTimeout :: "unit promise \<Rightarrow> string \<Rightarrow> nat \<times> unit outcome" where
  "raceTimeout connectPromise msg =
     (case connectPromise of
        Never \<Rightarrow> (10000, Rejected (newError msg))
      | At t r \<Rightarrow> if t < 10000 then (t, r) else (10000, Rejected (newError msg)))"

text \<open>\<open>createMCPConnection\<close>: when the returned promise settles, and with what.\<close>

definition createMCPConnection :: "MCPServer \<Rightarrow> connect_env \<Rightarrow> nat \<times> (thrown + Client)" where
  "createMCPConnection server e =
     (if transport (srv_config server) = Some Sse then
        (if url (srv_config server) = None \<or> url (srv_config server) = Some []
         then (0, Inl (newError ''URL is required for SSE transport''))
         else if \<not> url_parses e
         then (0, Inl (newError ''Invalid URL''))
         else (case raceTimeout (connect (new_client e)) ''SSE connection timeout'' of
                 (t, Rejected err) \<Rightarrow> (t, Inl err)
               | (t, Fulfilled _) \<Rightarrow> (t, Inr (new_client e))))
      else if transport (srv_config server) = Some Stdio
              \<and> command (srv_config server) \<noteq> None \<and> command (srv_config server) \<noteq> Some []
      then (case raceTimeout (connect (new_client e)) ''STDIO connection timeout'' of
              (t, Rejected err) \<Rightarrow> (t, Inl err)
            | (t, Fulfilled _) \<Rightarrow> (t, Inr (new_client e)))
      else (0, Inl (newError ''Invalid server configuration'')))"

text \<open>The tool list of a \<open>listTools\<close> result, with the defaults the handler fills in.\<close>

definition emptyObjectSchema :: json where
  "emptyObjectSchema =
     JObj [(''type'', JStr ''object''), (''properties'', JObj []), (''required'', JArr [])]"

definition discoveredTools :: "remote_tool list option \<Rightarrow> MCPTool list" where
  "discoveredTools ts =
     map (\<lambda>tool.
            \<lparr> name = rt_name tool,
              description = (case rt_description tool of
                               None \<Rightarrow> ''''
                             | Some d \<Rightarrow> if d = [] then '''' else d),
              inputSchema = (case rt_inputSchema tool of
                               None \<Rightarrow> emptyObjectSchema
                             | Some s \<Rightarrow> if truthy s then s else emptyObjectSchema) \<rparr>)
         (case ts of None \<Rightarrow> [] | Some l \<Rightarrow> l)"

definition sqlErrorMessage :: "sql_error \<Rightarrow> string" where
  "sqlErrorMessage e = (case e of ForeignKeyConstraintFailed \<Rightarrow> ''FOREIGN KEY constraint failed'')"

text \<open>
  The part of the test-connection handler that follows a successful connect; the sse and
  the stdio branch run the same statements with their own process, error prefix and
  description. \<open>t\<close> is the time at which the connect settled.
\<close>

definition listAndStore ::
  "string \<Rightarrow> string \<Rightarrow> MCPServer \<Rightarrow> Client \<Rightarrow> ChildProcess option \<Rightarrow> nat \<Rightarrow> app_state
     \<Rightarrow> (nat \<times> response) option \<times> app_state" where
  "listAndStore prefix descr server c proc t st =
     (case listTools c of
        Never \<Rightarrow> (None, st)
      | At d (Rejected err) \<Rightarrow>
          (Some (t + d, ErrorResponse 400 (prefix @ messageOrUnknown err) None), st)
      | At d (Fulfilled toolsResult) \<Rightarrow>
          (let st' = st\<lparr> conn_table := setConnection (srv_id server) c proc (conn_table st) \<rparr>;
               tools = discoveredTools toolsResult;
               db' = saveServer (server\<lparr> srv_status := ''connected'' \<rparr>) (store st')
           in case saveTools (srv_id server) tools db' of
                (Some err, db'') \<Rightarrow>
                  (Some (t + d, ErrorResponse 400 (prefix @ sqlErrorMessage err) None),
                   st'\<lparr> store := db'' \<rparr>)
              | (None, db'') \<Rightarrow>
                  (Some (t + d, ConnectionTested tools (srv_name server) ''1.0.0'' descr),
                   st'\<lparr> store := db'' \<rparr>)))"

text \<open>
  \<open>POST\<close> of the test-connection route: the response and the time at which it is given
  (none while an awaited call never settles), and the state left behind. The request body
  is an \<open>MCPServer\<close> with its \<open>config\<close>, so the first guard of the handler (no config)
  does not fire; every throw of the two branches is caught by the branch's own \<open>catch\<close>.
\<close>

definition POST_test_connection ::
  "MCPServer \<Rightarrow> connect_env \<Rightarrow> app_state \<Rightarrow> (nat \<times> response) option \<times> app_state" where
  "POST_test_connection server e st =
     (if transport (srv_config server) = Some Sse then
        (if url (srv_config server) = None \<or> url (srv_config server) = Some []
         then (Some (0, ErrorResponse 400 ''URL is required for SSE transport'' None), st)
         else
           (case deleteConnection (srv_id server) (conn_table st) of
              Inl err \<Rightarrow>
                (Some (0, ErrorResponse 400 (''SSE connection failed: '' @ messageOrUnknown err) None), st)
            | Inr (log, conns') \<Rightarrow>
                (let st1 = st\<lparr> conn_table := conns' \<rparr> in
                 if \<not> url_parses e
                 then (Some (0, ErrorResponse 400 (''SSE connection failed: '' @ ''Invalid URL'') None), st1)
                 else
                   (case raceTimeout (connect (new_client e)) ''SSE connection timeout'' of
                      (t, Rejected err) \<Rightarrow>
                        (Some (t, ErrorResponse 400 (''SSE connection failed: '' @ messageOrUnknown err) None), st1)
                    | (t, Fulfilled _) \<Rightarrow>
                        listAndStore ''SSE connection failed: '' ''MCP SSE Server'' server
                          (new_client e) None t st1))))
      else if transport (srv_config server) = Some Stdio
              \<and> command (srv_config server) \<noteq> None \<and> command (srv_config server) \<noteq> Some []
      then
        (case deleteConnection (srv_id server) (conn_table st) of
           Inl err \<Rightarrow>
             (Some (0, ErrorResponse 400 (''STDIO connection failed: '' @ messageOrUnknown err) None), st)
         | Inr (log, conns') \<Rightarrow>
             (let st1 = st\<lparr> conn_table := conns' \<rparr> in
              case raceTimeout (connect (new_client e)) ''Connection timeout'' of
                (t, Rejected err) \<Rightarrow>
                  (Some (t, ErrorResponse 400 (''STDIO connection failed: '' @ messageOrUnknown err) None), st1)
              | (t, Fulfilled _) \<Rightarrow>
                  listAndStore ''STDIO connection failed: '' ''MCP Server'' server
                    (new_client e) (transport_process e) t st1))
      else (Some (0, ErrorResponse 400 ''Invalid server configuration'' None), st))"

section \<open>Auxiliary notions for the handlers\<close>

text \<open>The timer of the race fires before the connect attempt settles.\<close>

definition timerFiresFirst :: "unit promise \<Rightarrow> bool" where
  "timerFiresFirst p = (case p of Never \<Rightarrow> True | At t _ \<Rightarrow> 10000 < t)"

text \<open>Nothing is stored under the id: no server row, no tool row, no connection.\<close>

definition nothingUnder :: "string \<Rightarrow> app_state \<Rightarrow> bool" where
  "nothingUnder sid st =
     (\<not> server_exists sid (store st) \<and> getToolsByServer_stmt sid (store st) = []
      \<and> \<not> hasConnection sid (conn_table st))"

subsection \<open>Sample clients and states\<close>

definition sampleClient :: "unit promise \<Rightarrow> json promise \<Rightarrow> close_behaviour \<Rightarrow> Client" where
  "sampleClient connecting calling closing =
     \<lparr> connect = connecting, listTools = At 30 (Fulfilled (Some [])),
       callTool = (\<lambda>_ _. calling), close = closing \<rparr>"

definition sampleState :: "Client \<Rightarrow> app_state" where
  "sampleState c =
     \<lparr> conn_table = [''s1'' \<mapsto> \<lparr> client = c, process = Some \<lparr> kill = None \<rparr> \<rparr>],
       store = sampleDb \<rparr>"

definition sampleCall :: MCPToolCall where
  "sampleCall = \<lparr> toolName = ''query'', arguments = JObj [], serverId = ''s1'' \<rparr>"

definition stdioServer :: MCPServer where
  "stdioServer =
     \<lparr> srv_id = ''s1'', srv_name = ''demo'', srv_config = stdioConfig, srv_enabled = True,
       srv_status = ''disconnected'', srv_tools = [] \<rparr>"

definition sseServer :: MCPServer where
  "sseServer =
     \<lparr> srv_id = ''s1'', srv_name = ''demo'',
       srv_config = \<lparr> command = None, args = None, env = None,
                      url = Some ''http://localhost:3001/sse'', headers = None,
                      transport = Some Sse \<rparr>,
       srv_enabled = True, srv_status = ''disconnected'', srv_tools = [] \<rparr>"

definition sampleEnv :: "Client \<Rightarrow> connect_env" where
  "sampleEnv c = \<lparr> url_parses = True, new_client = c, transport_process = None \<rparr>"

section \<open>The schema translator\<close>

text \<open>
  A tool's declared input schema as \<open>mcpSchemaToZod\<close> reads it, through the casts of the
  source: \<open>type\<close> is any value, \<open>properties\<close> is a record of records and \<open>required\<close>
  an array of strings. A field that is absent (or falsy) is \<open>None\<close>; an empty
  \<open>properties\<close> object and an empty \<open>required\<close> array are present.
\<close>

record mcpSchema =
  schema_type :: "json option"
  schema_properties :: "(string \<times> (string \<times> json) list) list option"
  schema_required :: "string list option"

subsection \<open>The part of the validation library that the translator uses\<close>

text \<open>
  The validators built by \<open>z.string()\<close>, \<open>z.number()\<close>, \<open>z.boolean()\<close>,
  \<open>z.array(z.unknown())\<close>, \<open>z.unknown()\<close> and \<open>.optional()\<close>. The library is not
  part of the repository; its documented behaviour is written out here.
\<close>

datatype zod_field = ZString | ZNumber | ZBoolean | ZArrayUnknown | ZUnknown | ZOptional zod_field

text \<open>
  An object schema is its shape, the validator of every key in enumeration order; an entry
  is \<open>None\<close> when the value stored under the key is \<open>undefined\<close>. The other schema the
  translator returns is \<open>z.record(z.string(), z.unknown())\<close>.
\<close>

datatype zod_schema = ZObject "(string \<times> zod_field option) list" | ZRecordOfUnknown

text \<open>Does the validator accept the value found under a key (\<open>None\<close>: the key is absent)?\<close>

fun accepts :: "zod_field \<Rightarrow> json option \<Rightarrow> bool" where
  "accepts ZString v = (case v of Some (JStr _) \<Rightarrow> True | _ \<Rightarrow> False)"
| "accepts ZNumber v = (case v of Some (JNum _) \<Rightarrow> True | _ \<Rightarrow> False)"
| "accepts ZBoolean v = (case v of Some (JBool _) \<Rightarrow> True | _ \<Rightarrow> False)"
| "accepts ZArrayUnknown v = (case v of Some (JArr _) \<Rightarrow> True | _ \<Rightarrow> False)"
| "accepts ZUnknown v = True"
| "accepts (ZOptional f) v = (v = None \<or> accepts f v)"

text \<open>\<open>obj[key] = value\<close>: an existing key keeps its place, a new key is added at the end.\<close>

fun assign :: "string \<Rightarrow> 'a \<Rightarrow> (string \<times> 'a) list \<Rightarrow> (string \<times> 'a) list" where
  "assign k v [] = [(k, v)]"
| "assign k v ((k', v') # rest) =
     (if k' = k then (k, v) # rest else (k', v') # assign k v rest)"

text \<open>\<open>Object.fromEntries(entries)\<close> and the spread \<open>{...a, ...b}\<close>.\<close>

definition fromEntries :: "(string \<times> 'a) list \<Rightarrow> (string \<times> 'a) list" where
  "fromEntries entries = foldl (\<lambda>obj (k, v). assign k v obj) [] entries"

definition spread :: "(string \<times> 'a) list \<Rightarrow> (string \<times> 'a) list \<Rightarrow> (string \<times> 'a) list" where
  "spread a b = foldl (\<lambda>obj (k, v). assign k v obj) a b"

text \<open>\<open>schema.partial()\<close>: every validator of the shape becomes optional.\<close>

definition partial :: "(string \<times> zod_field option) list \<Rightarrow> (string \<times> zod_field option) list" where
  "partial shape = map (\<lambda>(k, f). (k, map_option ZOptional f)) shape"

text \<open>
  \<open>a.merge(b)\<close>: the shape is \<open>{...a.shape, ...b.shape}\<close>, so where both schemas have a
  key the validator of \<open>b\<close> replaces the one of \<open>a\<close>.
\<close>

definition merge :: "(string \<times> zod_field option) list \<Rightarrow> (string \<times> zod_field option) list \<Rightarrow> zod_schema" where
  "merge a b = ZObject (spread a b)"

text \<open>
  The outcome of validating an argument object: the parsed object, or a validation error
  with the keys that have an issue, or a \<open>TypeError\<close> thrown by the library when a
  shape entry is \<open>undefined\<close>. An object schema strips the keys it does not declare from
  its output and never rejects them.
\<close>

datatype zod_failure = ValidationError "string list" | ShapeEntryUndefined

definition parse :: "zod_schema \<Rightarrow> (string \<times> json) list \<Rightarrow> zod_failure + (string \<times> json) list" where
  "parse schema input =
     (case schema of
        ZRecordOfUnknown \<Rightarrow> Inr input
      | ZObject shape \<Rightarrow>
          (if \<exists>entry \<in> set shape. snd entry = None then Inl ShapeEntryUndefined
           else
             (let issues = map fst (filter (\<lambda>(k, f). \<not> accepts (the f) (map_of input k)) shape) in
              if issues \<noteq> [] then Inl (ValidationError issues)
              else Inr (concat (map (\<lambda>(k, f). case map_of input k of
                                                  None \<Rightarrow> []
                                                | Some v \<Rightarrow> [(k, v)]) shape)))))"

subsection \<open>\<open>mcpSchemaToZod\<close>\<close>

text \<open>The validator chosen for a declared property, from its \<open>type\<close>.\<close>

definition fieldFor :: "(string \<times> json) list \<Rightarrow> zod_field" where
  "fieldFor prop =
     (if map_of prop ''type'' = Some (JStr ''string'') then ZString
      else if map_of prop ''type'' = Some (JStr ''number'') then ZNumber
      else if map_of prop ''type'' = Some (JStr ''boolean'') then ZBoolean
      else if map_of prop ''type'' = Some (JStr ''array'') then ZArrayUnknown
      else ZUnknown)"

definition mcpSchemaToZod :: "mcpSchema \<Rightarrow> zod_schema" where
  "mcpSchemaToZod s =
     (case (schema_type s, schema_properties s) of
        (Some (JStr t), Some props) \<Rightarrow>
          (if t = ''object'' then
             (let requiredKeys = (case schema_required s of None \<Rightarrow> [] | Some r \<Rightarrow> r);
                  zodProperties = foldl (\<lambda>obj (key, prop). assign key (fieldFor prop) obj) [] props;
                  schema = map (\<lambda>(k, f). (k, Some f)) zodProperties;
                  optionalSchema = partial schema;
                  requiredSchema = fromEntries (map (\<lambda>key. (key, map_of zodProperties key)) requiredKeys)
              in merge requiredSchema optionalSchema)
           else ZRecordOfUnknown)
      | _ \<Rightarrow> ZRecordOfUnknown)"

subsection \<open>Sample schema\<close>

text \<open>\<open>{type: 'object', properties: {a: {type: 'string'}}, required: ['a']}\<close>.\<close>

definition schemaA :: mcpSchema where
  "schemaA =
     \<lparr> schema_type = Some (JStr ''object''),
       schema_properties = Some [(''a'', [(''type'', JStr ''string'')])],
       schema_required = Some [''a''] \<rparr>"


section \<open>Properties of the store\<close>

subsection \<open>Helper lemmas\<close>

lemma toolRow_sel [simp]:
  "tool_server_id (toolRow S t) = S"
  "tool_id (toolRow S t) = toolRowId S (name t)"
  "tool_name (toolRow S t) = name t"
  by (simp_all add: toolRow_def)

lemma find_replaced:
  "row_id r = i \<Longrightarrow> find (\<lambda>s. row_id s = i) (filter (\<lambda>s. row_id s \<noteq> i) xs @ [r]) = Some r"
  by (induction xs) auto

lemma getServer_saveServer:
  "getServer (srv_id s) (saveServer s db) = Some (s\<lparr> srv_tools := [] \<rparr>)"
  by (simp add: getServer_def saveServer_def getServer_stmt_def insertServer_stmt_def find_replaced)

lemma toolRowId_inj: "toolRowId S a = toolRowId S b \<longleftrightarrow> a = b"
  by (simp add: toolRowId_def)

lemma insertTools_ok:
  "fk_ok S db \<Longrightarrow> insertTools S ts db = Inr (db\<lparr> mcp_tools := upsertRows S ts (mcp_tools db) \<rparr>)"
proof (induction ts arbitrary: db)
  case Nil
  then show ?case by (simp add: upsertRows_def)
next
  case (Cons t ts)
  let ?db' = "db\<lparr> mcp_tools := filter (\<lambda>r. tool_id r \<noteq> toolRowId S (name t)) (mcp_tools db) @ [toolRow S t] \<rparr>"
  have step: "insertTool_stmt (toolRow S t) db = Inr ?db'"
    using Cons.prems by (auto simp: insertTool_stmt_def fk_ok_def toolRow_def server_exists_def)
  have ok': "fk_ok S ?db'"
    using Cons.prems by (simp add: fk_ok_def server_exists_def)
  show ?case
    using Cons.IH [OF ok'] step by (simp add: upsertRows_def)
qed

lemma insertTools_fail:
  "\<not> fk_ok S db \<Longrightarrow> ts \<noteq> [] \<Longrightarrow> insertTools S ts db = Inl ForeignKeyConstraintFailed"
  by (cases ts) (auto simp: insertTool_stmt_def fk_ok_def toolRow_def)

lemma own_rows_upsert:
  "filter (\<lambda>r. tool_server_id r = S) rows = map (toolRow S) acc \<Longrightarrow>
   filter (\<lambda>r. tool_server_id r = S) (upsertRows S ts rows) =
   map (toolRow S) (filter (\<lambda>u. name u \<notin> set (map name ts)) acc @ keepLast ts)"
proof (induction ts arbitrary: rows acc)
  case Nil
  then show ?case by (simp add: upsertRows_def)
next
  case (Cons t ts)
  let ?rows = "filter (\<lambda>r. tool_id r \<noteq> toolRowId S (name t)) rows @ [toolRow S t]"
  let ?acc = "filter (\<lambda>u. name u \<noteq> name t) acc @ [t]"
  have "filter (\<lambda>r. tool_server_id r = S) ?rows =
        filter (\<lambda>r. tool_id r \<noteq> toolRowId S (name t)) (filter (\<lambda>r. tool_server_id r = S) rows) @ [toolRow S t]"
    by (auto simp: toolRow_def intro: filter_cong)
  also have "\<dots> = map (toolRow S) ?acc"
    by (simp add: Cons.prems filter_map o_def toolRow_def toolRowId_inj)
  finally have view: "filter (\<lambda>r. tool_server_id r = S) ?rows = map (toolRow S) ?acc" .
  have unfold: "upsertRows S (t # ts) rows = upsertRows S ts ?rows"
    by (simp add: upsertRows_def)
  have "filter (\<lambda>u. name u \<notin> set (map name ts)) ?acc @ keepLast ts =
        filter (\<lambda>u. name u \<notin> set (map name (t # ts))) acc @ keepLast (t # ts)"
    by (auto intro: filter_cong)
  with Cons.IH [OF view] unfold show ?case by simp
qed

lemma other_rows_upsert:
  "S' \<noteq> S \<Longrightarrow>
   filter (\<lambda>r. tool_server_id r = S') (upsertRows S ts rows) =
   filter (\<lambda>r. tool_id r \<notin> set (map (\<lambda>t. toolRowId S (name t)) ts))
     (filter (\<lambda>r. tool_server_id r = S') rows)"
proof (induction ts arbitrary: rows)
  case Nil
  then show ?case by (simp add: upsertRows_def)
next
  case (Cons t ts)
  let ?rows = "filter (\<lambda>r. tool_id r \<noteq> toolRowId S (name t)) rows @ [toolRow S t]"
  have unfold: "upsertRows S (t # ts) rows = upsertRows S ts ?rows"
    by (simp add: upsertRows_def)
  have "filter (\<lambda>r. tool_server_id r = S') ?rows =
        filter (\<lambda>r. tool_id r \<noteq> toolRowId S (name t)) (filter (\<lambda>r. tool_server_id r = S') rows)"
    using Cons.prems by (auto intro: filter_cong)
  then have "filter (\<lambda>r. tool_server_id r = S') (upsertRows S (t # ts) rows) =
        filter (\<lambda>r. tool_id r \<notin> set (map (\<lambda>t. toolRowId S (name t)) ts))
          (filter (\<lambda>r. tool_id r \<noteq> toolRowId S (name t)) (filter (\<lambda>r. tool_server_id r = S') rows))"
    using Cons.IH [OF Cons.prems, of ?rows] unfold by simp
  also have "\<dots> = filter (\<lambda>r. tool_id r \<notin> set (map (\<lambda>t. toolRowId S (name t)) (t # ts)))
          (filter (\<lambda>r. tool_server_id r = S') rows)"
    by (auto intro: filter_cong)
  finally show ?case .
qed

lemma set_names_keepLast: "set (map name (keepLast ts)) = set (map name ts)"
  by (induction ts) auto

lemma distinct_keepLast: "distinct (map name (keepLast ts))"
proof (induction ts)
  case Nil
  then show ?case by simp
next
  case (Cons t ts)
  then show ?case using set_names_keepLast [of ts] by auto
qed

lemma keepLast_distinct: "distinct (map name ts) \<Longrightarrow> keepLast ts = ts"
  by (induction ts) auto


lemma fk_ok_delete [simp]: "fk_ok S (deleteToolsByServer_stmt S' db) = fk_ok S db"
  by (simp add: fk_ok_def deleteToolsByServer_stmt_def server_exists_def)

lemma saveTools_ok:
  "fk_ok S db \<Longrightarrow>
   saveTools S ts db =
     (None, db\<lparr> mcp_tools := upsertRows S ts (filter (\<lambda>r. tool_server_id r \<noteq> S) (mcp_tools db)) \<rparr>)"
proof -
  assume "fk_ok S db"
  then have "fk_ok S (deleteToolsByServer_stmt S db)" by simp
  from insertTools_ok [OF this, of ts] show ?thesis
    by (simp add: saveTools_def transaction_def deleteToolsByServer_stmt_def)
qed

lemma saveTools_fail:
  "\<not> fk_ok S db \<Longrightarrow> ts \<noteq> [] \<Longrightarrow>
   saveTools S ts db = (Some ForeignKeyConstraintFailed, deleteToolsByServer_stmt S db)"
proof -
  assume "\<not> fk_ok S db" and "ts \<noteq> []"
  then have "insertTools S ts (deleteToolsByServer_stmt S db) = Inl ForeignKeyConstraintFailed"
    by (simp add: insertTools_fail)
  then show ?thesis
    by (simp add: saveTools_def transaction_def)
qed

lemma saveTools_nil: "saveTools S [] db = (None, deleteToolsByServer_stmt S db)"
  by (simp add: saveTools_def transaction_def)

lemma getToolsByServer_view:
  "filter (\<lambda>r. tool_server_id r = S) (mcp_tools db) = map (toolRow S) acc \<Longrightarrow>
   getToolsByServer S db = acc"
  by (simp add: getToolsByServer_def getToolsByServer_stmt_def toolRow_def o_def map_idI)

lemma getToolsByServer_deleted [simp]: "getToolsByServer S (deleteToolsByServer_stmt S db) = []"
  by (simp add: getToolsByServer_def getToolsByServer_stmt_def deleteToolsByServer_stmt_def)

lemma getToolsByServer_saveTools_ok:
  assumes "fk_ok S db"
  shows "getToolsByServer S (snd (saveTools S ts db)) = keepLast ts"
proof -
  let ?rows = "filter (\<lambda>r. tool_server_id r \<noteq> S) (mcp_tools db)"
  have "filter (\<lambda>r. tool_server_id r = S) ?rows = map (toolRow S) []"
    by simp
  from own_rows_upsert [OF this, of ts]
  have "filter (\<lambda>r. tool_server_id r = S) (upsertRows S ts ?rows) = map (toolRow S) (keepLast ts)"
    by simp
  then show ?thesis
    using assms by (simp add: saveTools_ok getToolsByServer_view)
qed

lemma saveTools_error_iff:
  "fst (saveTools S ts db) = None \<longleftrightarrow> ts = [] \<or> fk_ok S db"
proof (cases "fk_ok S db")
  case True
  then show ?thesis by (simp add: saveTools_ok)
next
  case False
  then show ?thesis
    by (cases "ts = []") (simp_all add: saveTools_nil saveTools_fail)
qed

lemma saveTools_preserves_fk_ok: "fk_ok S' (snd (saveTools S ts db)) = fk_ok S' db"
proof (cases "fk_ok S db")
  case True
  then show ?thesis by (simp add: saveTools_ok fk_ok_def server_exists_def)
next
  case False
  then show ?thesis
    by (cases "ts = []") (simp_all add: saveTools_nil saveTools_fail)
qed

lemma getToolsByServer_other_saveTools:
  assumes "S' \<noteq> S" and "no_id_clash S ts db"
  shows "getToolsByServer S' (snd (saveTools S ts db)) = getToolsByServer S' db"
proof -
  have del: "getToolsByServer S' (deleteToolsByServer_stmt S db) = getToolsByServer S' db"
    using assms(1)
    by (auto simp: getToolsByServer_def getToolsByServer_stmt_def deleteToolsByServer_stmt_def
        intro!: arg_cong [where f = "map _"] filter_cong)
  show ?thesis
  proof (cases "fk_ok S db")
    case True
    let ?rows = "filter (\<lambda>r. tool_server_id r \<noteq> S) (mcp_tools db)"
    have "filter (\<lambda>r. tool_server_id r = S') (upsertRows S ts ?rows) =
          filter (\<lambda>r. tool_id r \<notin> set (map (\<lambda>t. toolRowId S (name t)) ts))
            (filter (\<lambda>r. tool_server_id r = S') ?rows)"
      by (rule other_rows_upsert [OF assms(1)])
    also have "\<dots> = filter (\<lambda>r. tool_server_id r = S') (mcp_tools db)"
      using assms by (auto simp: no_id_clash_def intro!: filter_cong)
    finally show ?thesis
      using True by (simp add: saveTools_ok getToolsByServer_def getToolsByServer_stmt_def)
  next
    case False
    then show ?thesis
      using del by (cases "ts = []") (simp_all add: saveTools_nil saveTools_fail)
  qed
qed

lemma saveTools_rows_subset:
  "{r \<in> set (mcp_tools (snd (saveTools S ts db))). tool_server_id r \<noteq> S} \<subseteq> set (mcp_tools db)"
proof
  fix r
  assume "r \<in> {r \<in> set (mcp_tools (snd (saveTools S ts db))). tool_server_id r \<noteq> S}"
  then have r: "r \<in> set (mcp_tools (snd (saveTools S ts db)))" and o: "tool_server_id r \<noteq> S"
    by simp_all
  show "r \<in> set (mcp_tools db)"
  proof (cases "fk_ok S db")
    case True
    let ?rows = "filter (\<lambda>r. tool_server_id r \<noteq> S) (mcp_tools db)"
    from r True have "r \<in> set (filter (\<lambda>x. tool_server_id x = tool_server_id r) (upsertRows S ts ?rows))"
      by (simp add: saveTools_ok)
    then show ?thesis
      using other_rows_upsert [OF o, of ts ?rows] by simp
  next
    case False
    then show ?thesis
      using r by (cases "ts = []") (simp_all add: saveTools_nil saveTools_fail deleteToolsByServer_stmt_def)
  qed
qed

lemma no_id_clash_append:
  "no_id_clash S (xs @ ys) db \<longleftrightarrow> no_id_clash S xs db \<and> no_id_clash S ys db"
  by (auto simp: no_id_clash_def)

lemma getServer_never_loads_tools:
  "map_option srv_tools (getServer i db) = map_option (\<lambda>_. []) (getServer i db)"
  by (simp add: getServer_def split: option.splits)

subsection \<open>Saving and reading back a server\<close>

text \<open>
  Claim C9. After \<open>saveServer s\<close>, \<open>getServer (s.id)\<close> returns \<open>s\<close> with the same id,
  name, config, enabled flag and status, and with the tools field empty whatever tools
  \<open>s\<close> carried and whatever the tools table holds; \<open>getServer\<close> never loads tools on
  any database, and \<open>getServerWithTools\<close> is the operation that joins them in.
\<close>

theorem getServer_after_saveServer:
  "getServer (srv_id s) (saveServer s db) = Some (s\<lparr> srv_tools := [] \<rparr>) \<and>
   map_option srv_tools (getServer i db') = map_option (\<lambda>_. []) (getServer i db') \<and>
   getServerWithTools (srv_id s) (saveServer s db) =
     Some (s\<lparr> srv_tools := getToolsByServer (srv_id s) (saveServer s db) \<rparr>)"
  by (simp add: getServer_saveServer getServer_never_loads_tools getServerWithTools_def)

subsection \<open>Replacing a server's tools\<close>

text \<open>
  Claim C10. After every \<open>saveTools serverId tools\<close>, \<open>getToolsByServer serverId\<close>
  returns no two tools with the same name; and when the call returns without an error,
  it returns exactly the last occurrence of every name of the list, in the order of those
  last occurrences.
\<close>

theorem saveTools_one_tool_per_name:
  "distinct (map name (getToolsByServer S (snd (saveTools S ts db)))) \<and>
   (fst (saveTools S ts db) = None \<longrightarrow>
      getToolsByServer S (snd (saveTools S ts db)) = keepLast ts)"
proof (cases "fk_ok S db")
  case True
  then show ?thesis
    by (simp add: getToolsByServer_saveTools_ok distinct_keepLast)
next
  case False
  then show ?thesis
    by (cases "ts = []") (simp_all add: saveTools_nil saveTools_fail)
qed

theorem saveTools_one_tool_per_name_witness:
  "fst (saveTools ''s1'' [mkTool ''a'' ''old'', mkTool ''b'' ''other'', mkTool ''a'' ''new'']
         \<lparr> mcp_servers = [serverRow ''s1''], mcp_tools = [], foreign_keys = True \<rparr>) = None \<and>
   getToolsByServer ''s1''
     (snd (saveTools ''s1'' [mkTool ''a'' ''old'', mkTool ''b'' ''other'', mkTool ''a'' ''new'']
         \<lparr> mcp_servers = [serverRow ''s1''], mcp_tools = [], foreign_keys = True \<rparr>))
     = [mkTool ''b'' ''other'', mkTool ''a'' ''new'']"
proof -
  have ok: "fst (saveTools ''s1'' [mkTool ''a'' ''old'', mkTool ''b'' ''other'', mkTool ''a'' ''new'']
         \<lparr> mcp_servers = [serverRow ''s1''], mcp_tools = [], foreign_keys = True \<rparr>) = None"
    by (simp add: saveTools_def transaction_def deleteToolsByServer_stmt_def insertTool_stmt_def
        server_exists_def serverRow_def toolRow_def)
  have "keepLast [mkTool ''a'' ''old'', mkTool ''b'' ''other'', mkTool ''a'' ''new'']
        = [mkTool ''b'' ''other'', mkTool ''a'' ''new'']"
    by (simp add: mkTool_def)
  with ok saveTools_one_tool_per_name
    [of "''s1''" "[mkTool ''a'' ''old'', mkTool ''b'' ''other'', mkTool ''a'' ''new'']"
        "\<lparr> mcp_servers = [serverRow ''s1''], mcp_tools = [], foreign_keys = True \<rparr>"]
  show ?thesis by simp
qed

text \<open>
  Claim C2, as stated, fails in three ways: a second list with a repeated name is not
  returned as it is; a primary key \<open>serverId_name\<close> can coincide with the key of another
  server's tool, whose row is then replaced; and with foreign keys enforced, tools saved
  for a server id that is not in \<open>mcp_servers\<close> are not stored at all.
\<close>

theorem saveTools_replace_counterexample:
  "getToolsByServer ''s1''
     (snd (saveTools ''s1'' [mkTool ''c'' ''one'', mkTool ''c'' ''two'']
       (snd (saveTools ''s1'' [mkTool ''a'' ''x'', mkTool ''b'' ''y'']
         \<lparr> mcp_servers = [serverRow ''s1''], mcp_tools = [], foreign_keys = False \<rparr>))))
     \<noteq> [mkTool ''c'' ''one'', mkTool ''c'' ''two''] \<and>
   getToolsByServer ''a_b''
     (snd (saveTools ''a'' [mkTool ''b_c'' ''new'']
       (snd (saveTools ''a'' []
         \<lparr> mcp_servers = [serverRow ''a'', serverRow ''a_b''],
           mcp_tools = [toolRow ''a_b'' (mkTool ''c'' ''kept'')], foreign_keys = False \<rparr>))))
     \<noteq> getToolsByServer ''a_b''
         \<lparr> mcp_servers = [serverRow ''a'', serverRow ''a_b''],
           mcp_tools = [toolRow ''a_b'' (mkTool ''c'' ''kept'')], foreign_keys = False \<rparr> \<and>
   getToolsByServer ''s2''
     (snd (saveTools ''s2'' [mkTool ''c'' ''z'']
       (snd (saveTools ''s2'' [mkTool ''a'' ''x'', mkTool ''b'' ''y'']
         \<lparr> mcp_servers = [serverRow ''s1''], mcp_tools = [], foreign_keys = True \<rparr>))))
     \<noteq> [mkTool ''c'' ''z'']"
  by (simp add: saveTools_def transaction_def deleteToolsByServer_stmt_def insertTool_stmt_def
      server_exists_def serverRow_def toolRow_def toolRowId_def mkTool_def
      getToolsByServer_def getToolsByServer_stmt_def)

text \<open>
  Claim C2, amended. Let \<open>S\<close> be a server id for which inserts pass the foreign-key check
  (foreign keys are not enforced, or \<open>S\<close> is in \<open>mcp_servers\<close>) and let the names of
  \<open>T2\<close> be pairwise distinct. Then \<open>saveTools S T1\<close> followed by \<open>saveTools S T2\<close>
  returns without error and \<open>getToolsByServer S\<close> returns exactly \<open>T2\<close>, names,
  descriptions and input schemas, whatever \<open>T1\<close> was. The tools of every other server id
  are unchanged provided no row of another server has a primary key of the form
  \<open>S_name\<close> for a name of \<open>T1\<close> or \<open>T2\<close>.
\<close>

theorem saveTools_replaces:
  "(fk_ok S db \<and> distinct (map name T2) \<longrightarrow>
      fst (saveTools S T2 (snd (saveTools S T1 db))) = None \<and>
      getToolsByServer S (snd (saveTools S T2 (snd (saveTools S T1 db)))) = T2) \<and>
   (no_id_clash S (T1 @ T2) db \<longrightarrow>
      (\<forall>S'. S' \<noteq> S \<longrightarrow>
         getToolsByServer S' (snd (saveTools S T2 (snd (saveTools S T1 db)))) =
         getToolsByServer S' db))"
proof (intro conjI impI allI)
  assume h: "fk_ok S db \<and> distinct (map name T2)"
  then have ok1: "fk_ok S (snd (saveTools S T1 db))"
    by (simp add: saveTools_preserves_fk_ok)
  then show "fst (saveTools S T2 (snd (saveTools S T1 db))) = None"
    by (simp add: saveTools_error_iff)
  show "getToolsByServer S (snd (saveTools S T2 (snd (saveTools S T1 db)))) = T2"
    using h by (simp add: getToolsByServer_saveTools_ok [OF ok1] keepLast_distinct)
next
  fix S'
  assume clash: "no_id_clash S (T1 @ T2) db" and ne: "S' \<noteq> S"
  have c1: "no_id_clash S T1 db" and c2: "no_id_clash S T2 db"
    using clash by (simp_all add: no_id_clash_append)
  have c2': "no_id_clash S T2 (snd (saveTools S T1 db))"
    unfolding no_id_clash_def
  proof (intro ballI impI)
    fix r
    assume r: "r \<in> set (mcp_tools (snd (saveTools S T1 db)))" and o: "tool_server_id r \<noteq> S"
    have "r \<in> set (mcp_tools db)"
      using r o saveTools_rows_subset [of S T1 db] by auto
    then show "tool_id r \<notin> set (map (\<lambda>t. toolRowId S (name t)) T2)"
      using c2 o by (simp add: no_id_clash_def)
  qed
  show "getToolsByServer S' (snd (saveTools S T2 (snd (saveTools S T1 db)))) =
        getToolsByServer S' db"
    by (simp add: getToolsByServer_other_saveTools [OF ne c2']
        getToolsByServer_other_saveTools [OF ne c1])
qed

theorem saveTools_replaces_witness:
  "fk_ok ''s1'' sampleDb \<and>
   distinct (map name [mkTool ''c'' ''z'']) \<and>
   no_id_clash ''s1'' ([mkTool ''a'' ''x'', mkTool ''b'' ''y''] @ [mkTool ''c'' ''z'']) sampleDb \<and>
   fst (saveTools ''s1'' [mkTool ''c'' ''z'']
         (snd (saveTools ''s1'' [mkTool ''a'' ''x'', mkTool ''b'' ''y''] sampleDb))) = None \<and>
   getToolsByServer ''s1''
     (snd (saveTools ''s1'' [mkTool ''c'' ''z'']
         (snd (saveTools ''s1'' [mkTool ''a'' ''x'', mkTool ''b'' ''y''] sampleDb))))
     = [mkTool ''c'' ''z''] \<and>
   getToolsByServer ''s2''
     (snd (saveTools ''s1'' [mkTool ''c'' ''z'']
         (snd (saveTools ''s1'' [mkTool ''a'' ''x'', mkTool ''b'' ''y''] sampleDb))))
     = [mkTool ''k'' ''kept'']"
proof -
  have ok: "fk_ok ''s1'' sampleDb"
    by (simp add: fk_ok_def server_exists_def sampleDb_def serverRow_def)
  have dist: "distinct (map name [mkTool ''c'' ''z''])"
    by simp
  have clash: "no_id_clash ''s1'' ([mkTool ''a'' ''x'', mkTool ''b'' ''y''] @ [mkTool ''c'' ''z'']) sampleDb"
    by (simp add: no_id_clash_def sampleDb_def toolRow_def toolRowId_def)
  have other: "''s2'' \<noteq> ''s1''"
    by simp
  have before: "getToolsByServer ''s2'' sampleDb = [mkTool ''k'' ''kept'']"
    by (simp add: getToolsByServer_def getToolsByServer_stmt_def sampleDb_def toolRow_def mkTool_def)
  note inst = saveTools_replaces
    [of "''s1''" sampleDb "[mkTool ''c'' ''z'']" "[mkTool ''a'' ''x'', mkTool ''b'' ''y'']"]
  note own = inst [THEN conjunct1, THEN mp, OF conjI [OF ok dist]]
  have "getToolsByServer ''s2''
       (snd (saveTools ''s1'' [mkTool ''c'' ''z'']
         (snd (saveTools ''s1'' [mkTool ''a'' ''x'', mkTool ''b'' ''y''] sampleDb))))
       = getToolsByServer ''s2'' sampleDb"
    using inst [THEN conjunct2, THEN mp, OF clash, THEN spec, of "''s2''", THEN mp, OF other] .
  then have kept: "getToolsByServer ''s2''
       (snd (saveTools ''s1'' [mkTool ''c'' ''z'']
         (snd (saveTools ''s1'' [mkTool ''a'' ''x'', mkTool ''b'' ''y''] sampleDb))))
       = [mkTool ''k'' ''kept'']"
    by (simp only: before)
  show ?thesis
    by (intro conjI ok dist clash own [THEN conjunct1] own [THEN conjunct2] kept)
qed

section \<open>Properties of the connection table\<close>

lemma deleteConnection_returns:
  "\<exists>log. deleteConnection sid cs = Inr (log, cs(sid := None))"
  by (auto simp: deleteConnection_def split: option.splits prod.splits sum.splits)

lemma deleteConnection_absent:
  "cs sid = None \<Longrightarrow> deleteConnection sid cs = Inr (\<lparr> warned = [], unhandled = [] \<rparr>, cs)"
  by (simp add: deleteConnection_def)

lemma deleteConnection_logs_thrown:
  "cs sid = Some c \<Longrightarrow> snd (closeAndKill c) = Inl err \<Longrightarrow>
   \<exists>u. deleteConnection sid cs = Inr (\<lparr> warned = [err], unhandled = u \<rparr>, cs(sid := None))"
  by (auto simp: deleteConnection_def split: prod.splits sum.splits)

lemma deleteConnection_idempotent:
  "deleteConnection sid cs = Inr (log, cs') \<Longrightarrow>
   \<not> hasConnection sid cs' \<and> deleteConnection sid cs' = Inr (\<lparr> warned = [], unhandled = [] \<rparr>, cs')"
  using deleteConnection_returns [of sid cs]
  by (auto simp: hasConnection_def deleteConnection_absent)

text \<open>
  Claim C5 says that any error raised while closing the client is caught and logged. The
  client's \<open>close()\<close> returns a promise, and \<open>deleteConnection\<close> neither awaits it nor
  attaches a handler: when that promise rejects, the \<open>catch\<close> block has not run, nothing
  was passed to \<open>console.warn\<close>, and the rejection is left unhandled. The call itself
  returns and the entry is removed. (The on-demand execute route does await
  \<open>client.close()\<close> inside its \<open>try\<close>.)
\<close>

theorem deleteConnection_drops_rejection:
  "deleteConnection ''s1''
     [''s1'' \<mapsto> \<lparr> client = sampleClient (At 120 (Fulfilled ())) Never
                             (CloseReturns (At 5 (Rejected (newError ''transport close failed'')))),
                  process = None \<rparr>]
   = Inr (\<lparr> warned = [], unhandled = [newError ''transport close failed''] \<rparr>, Map.empty)"
  by (simp add: deleteConnection_def closeAndKill_def sampleClient_def rejection_def)

section \<open>Properties of tool execution over a stored connection\<close>

lemma toolErrorBranch_kept:
  "\<not> connectionLooksBroken err \<Longrightarrow>
   toolErrorBranch err sid st =
     (Some (ErrorResponse 400 (''Tool execution failed: '' @ messageOrUnknown err)
              (Some (thrownJson err))), st)"
  by (simp add: toolErrorBranch_def)


text \<open>
  What the handler does when the rejection carries none of the three words: the answer is
  the failure with the message, and the state is left as it was.
\<close>

lemma execute_rejection_without_keyword:
  assumes "toolName req \<noteq> []" and "serverId req \<noteq> []"
    and "conn_table st (serverId req) = Some c"
    and "callTool (client c) (toolName req) (arguments req) = At t (Rejected err)"
    and "\<not> connectionLooksBroken err"
  shows "POST_execute now req st =
           (Some (ErrorResponse 400 (''Tool execution failed: '' @ messageOrUnknown err)
                    (Some (thrownJson err))), st)"
  using assms by (simp add: POST_execute_def getConnection_def toolErrorBranch_kept)

text \<open>
  Claim C6 says that a failure reported by the remote tool yields a tool execution error
  carrying the remote message and never removes the connection. The handler's \<open>catch\<close>
  block means to remove the connection only when it is broken (its comment says so), but
  it tells a broken connection from the words \<open>connection\<close>, \<open>closed\<close>,
  \<open>disconnected\<close> in the error message: the remote tool's failure
  \<open>database connection refused\<close>, on a healthy connection, is answered with the
  failure and removes the entry (first two conjuncts). And a failure that the remote tool
  reports in its result, with \<open>isError: true\<close>, is not a failure for the handler at
  all: it is answered as a success with the content of the result (third conjunct).
\<close>

theorem execute_remote_failure_removes_connection:
  "hasConnection ''s1''
     (conn_table (sampleState (sampleClient (At 120 (Fulfilled ()))
        (At 40 (Rejected (newError ''database connection refused'')))
        (CloseReturns (At 1 (Fulfilled ())))))) \<and>
   POST_execute ''2025-01-01T00:00:00.000Z'' sampleCall
     (sampleState (sampleClient (At 120 (Fulfilled ()))
        (At 40 (Rejected (newError ''database connection refused'')))
        (CloseReturns (At 1 (Fulfilled ())))))
   = (Some (ErrorResponse 400 ''Tool execution failed: database connection refused''
              (Some (JObj []))),
      \<lparr> conn_table = Map.empty, store = sampleDb \<rparr>) \<and>
   POST_execute ''2025-01-01T00:00:00.000Z'' sampleCall
     (sampleState (sampleClient (At 120 (Fulfilled ()))
        (At 40 (Fulfilled (JObj [(''content'', JArr [JObj [(''type'', JStr ''text''),
                                                          (''text'', JStr ''division by zero'')]]),
                                 (''isError'', JBool True)])))
        (CloseReturns (At 1 (Fulfilled ())))))
   = (Some (ToolResult ''query''
              (JArr [JObj [(''type'', JStr ''text''), (''text'', JStr ''division by zero'')]])
              ''2025-01-01T00:00:00.000Z''),
      sampleState (sampleClient (At 120 (Fulfilled ()))
        (At 40 (Fulfilled (JObj [(''content'', JArr [JObj [(''type'', JStr ''text''),
                                                          (''text'', JStr ''division by zero'')]]),
                                 (''isError'', JBool True)])))
        (CloseReturns (At 1 (Fulfilled ())))))"
  by (simp add: POST_execute_def getConnection_def toolErrorBranch_def connectionLooksBroken_def
      deleteConnection_def closeAndKill_def rejection_def hasConnection_def contentOr_def
      messageOrUnknown_def thrownJson_def
      sampleState_def sampleClient_def sampleCall_def newError_def)




section \<open>Properties of deleting a server\<close>

lemma find_filter_other:
  "other \<noteq> i \<Longrightarrow>
   find (\<lambda>s. row_id s = other) (filter (\<lambda>s. row_id s \<noteq> i) xs) = find (\<lambda>s. row_id s = other) xs"
  by (induction xs) auto

lemma find_filter_self:
  "find (\<lambda>s. row_id s = i) (filter (\<lambda>s. row_id s \<noteq> i) xs) = None"
  by (induction xs) auto

lemma getServer_deleteServer: "getServer i (deleteServer i d) = None"
  by (simp add: getServer_def getServer_stmt_def deleteServer_def deleteServer_stmt_def
      deleteToolsByServer_stmt_def find_filter_self)

lemma getServer_deleteServer_other:
  "other \<noteq> i \<Longrightarrow> getServer other (deleteServer i d) = getServer other d"
  by (simp add: getServer_def getServer_stmt_def deleteServer_def deleteServer_stmt_def
      deleteToolsByServer_stmt_def find_filter_other)

lemma filter_other_server:
  "other \<noteq> i \<Longrightarrow>
   filter (\<lambda>t. tool_server_id t = other) (filter (\<lambda>t. tool_server_id t \<noteq> i) xs)
   = filter (\<lambda>t. tool_server_id t = other) xs"
  by (induction xs) auto

lemma filter_after_delete:
  "filter (\<lambda>t. tool_server_id t = other) (filter (\<lambda>t. tool_server_id t \<noteq> i) xs)
   = (if other = i then [] else filter (\<lambda>t. tool_server_id t = other) xs)"
  by (induction xs) auto

lemma mcp_tools_deleteServer:
  "set (mcp_tools (deleteServer i d)) = {t \<in> set (mcp_tools d). tool_server_id t \<noteq> i}"
  by (auto simp: deleteServer_def deleteServer_stmt_def deleteToolsByServer_stmt_def)

lemma rows_deleteServer:
  "getToolsByServer_stmt other (deleteServer i d) =
     (if other = i then [] else getToolsByServer_stmt other d)"
proof -
  have "mcp_tools (deleteServer i d) = filter (\<lambda>t. tool_server_id t \<noteq> i) (mcp_tools d)"
    by (simp add: deleteServer_def deleteServer_stmt_def deleteToolsByServer_stmt_def)
  then have "getToolsByServer_stmt other (deleteServer i d)
      = filter (\<lambda>t. tool_server_id t = other) (filter (\<lambda>t. tool_server_id t \<noteq> i) (mcp_tools d))"
    by (simp only: getToolsByServer_stmt_def)
  also have "\<dots> = (if other = i then [] else getToolsByServer_stmt other d)"
    by (simp only: filter_after_delete getToolsByServer_stmt_def)
  finally show ?thesis .
qed

lemma getToolsByServer_deleteServer: "getToolsByServer i (deleteServer i d) = []"
  by (simp add: getToolsByServer_def rows_deleteServer)

lemma getToolsByServer_deleteServer_other:
  "other \<noteq> i \<Longrightarrow> getToolsByServer other (deleteServer i d) = getToolsByServer other d"
  by (simp add: getToolsByServer_def rows_deleteServer)

lemma deleteServer_absent:
  assumes "\<not> server_exists i d" and "getToolsByServer_stmt i d = []"
  shows "deleteServer i d = d"
proof -
  have s: "filter (\<lambda>s. row_id s \<noteq> i) (mcp_servers d) = mcp_servers d"
    using assms(1) by (auto simp: server_exists_def intro: filter_True)
  have "\<forall>t \<in> set (mcp_tools d). tool_server_id t \<noteq> i"
    using assms(2) by (auto simp: getToolsByServer_stmt_def filter_empty_conv)
  then have t: "filter (\<lambda>t. tool_server_id t \<noteq> i) (mcp_tools d) = mcp_tools d"
    by (auto intro: filter_True)
  show ?thesis
    by (simp add: deleteServer_def deleteServer_stmt_def deleteToolsByServer_stmt_def s t
        server_exists_def)
qed

text \<open>
  Claim C8. For every server id the handler accepts (the empty id is answered with status
  400 before anything is touched), deleting it answers with success and never throws;
  afterwards the server record is gone, \<open>getToolsByServer\<close> of the id is empty and the
  id has no connection, whether or not one existed; every other server, tool set and
  connection is unchanged; and when nothing was stored under the id, the whole state is
  unchanged.
\<close>

theorem delete_server_cascades:
  "sid \<noteq> [] \<longrightarrow>
     (\<exists>st'. POST_delete_server sid st = (ServerDeleted ''Server deleted successfully'', st') \<and>
        getServer sid (store st') = None \<and>
        getToolsByServer sid (store st') = [] \<and>
        \<not> hasConnection sid (conn_table st') \<and>
        (\<forall>other. other \<noteq> sid \<longrightarrow>
           getServer other (store st') = getServer other (store st) \<and>
           getToolsByServer other (store st') = getToolsByServer other (store st) \<and>
           conn_table st' other = conn_table st other) \<and>
        (nothingUnder sid st \<longrightarrow> st' = st))"
proof
  assume ne: "sid \<noteq> []"
  obtain log where d: "deleteConnection sid (conn_table st) = Inr (log, (conn_table st)(sid := None))"
    using deleteConnection_returns by blast
  let ?st' = "\<lparr> conn_table = (conn_table st)(sid := None), store = deleteServer sid (store st) \<rparr>"
  have r: "POST_delete_server sid st = (ServerDeleted ''Server deleted successfully'', ?st')"
    using ne d by (simp add: POST_delete_server_def)
  have noop: "nothingUnder sid st \<longrightarrow> ?st' = st"
  proof
    assume n: "nothingUnder sid st"
    then have "deleteServer sid (store st) = store st"
      by (simp add: nothingUnder_def deleteServer_absent)
    moreover have "(conn_table st)(sid := None) = conn_table st"
      using n by (auto simp: nothingUnder_def hasConnection_def)
    ultimately show "?st' = st" by simp
  qed
  show "\<exists>st'. POST_delete_server sid st = (ServerDeleted ''Server deleted successfully'', st') \<and>
        getServer sid (store st') = None \<and>
        getToolsByServer sid (store st') = [] \<and>
        \<not> hasConnection sid (conn_table st') \<and>
        (\<forall>other. other \<noteq> sid \<longrightarrow>
           getServer other (store st') = getServer other (store st) \<and>
           getToolsByServer other (store st') = getToolsByServer other (store st) \<and>
           conn_table st' other = conn_table st other) \<and>
        (nothingUnder sid st \<longrightarrow> st' = st)"
  proof (intro exI [of _ ?st'] conjI allI impI)
    show "POST_delete_server sid st = (ServerDeleted ''Server deleted successfully'', ?st')"
      by (rule r)
    show "nothingUnder sid st \<Longrightarrow> ?st' = st"
      using noop by simp
  qed (simp_all add: getServer_deleteServer getToolsByServer_deleteServer hasConnection_def
        getServer_deleteServer_other getToolsByServer_deleteServer_other)
qed

theorem delete_server_cascades_witness:
  "''s2'' \<noteq> [] \<and> ''s1'' \<noteq> ''s2'' \<and>
   getToolsByServer ''s2'' (store (sampleState (sampleClient Never Never (CloseThrows (newError ''x''))))) \<noteq> [] \<and>
   fst (POST_delete_server ''s2'' (sampleState (sampleClient Never Never (CloseThrows (newError ''x'')))))
     = ServerDeleted ''Server deleted successfully'' \<and>
   getServer ''s2'' (store (snd (POST_delete_server ''s2''
       (sampleState (sampleClient Never Never (CloseThrows (newError ''x''))))))) = None \<and>
   getToolsByServer ''s2'' (store (snd (POST_delete_server ''s2''
       (sampleState (sampleClient Never Never (CloseThrows (newError ''x''))))))) = [] \<and>
   conn_table (snd (POST_delete_server ''s2''
       (sampleState (sampleClient Never Never (CloseThrows (newError ''x'')))))) ''s1''
     = conn_table (sampleState (sampleClient Never Never (CloseThrows (newError ''x'')))) ''s1'' \<and>
   nothingUnder ''ghost'' (sampleState (sampleClient Never Never (CloseThrows (newError ''x'')))) \<and>
   snd (POST_delete_server ''ghost'' (sampleState (sampleClient Never Never (CloseThrows (newError ''x'')))))
     = sampleState (sampleClient Never Never (CloseThrows (newError ''x'')))"
proof -
  let ?st = "sampleState (sampleClient Never Never (CloseThrows (newError ''x'')))"
  have ne: "''s2'' \<noteq> []" and ne': "''ghost'' \<noteq> []" and other: "''s1'' \<noteq> ''s2''"
    by simp_all
  have stored: "getToolsByServer ''s2'' (store ?st) \<noteq> []"
    by (simp add: sampleState_def sampleDb_def getToolsByServer_def getToolsByServer_stmt_def toolRow_def)
  have absent: "nothingUnder ''ghost'' ?st"
    by (simp add: nothingUnder_def sampleState_def sampleDb_def server_exists_def serverRow_def
        getToolsByServer_stmt_def toolRow_def hasConnection_def)
  from delete_server_cascades [of "''s2''" ?st, THEN mp, OF ne]
  obtain st' where r: "POST_delete_server ''s2'' ?st = (ServerDeleted ''Server deleted successfully'', st')"
    and g: "getServer ''s2'' (store st') = None"
    and t: "getToolsByServer ''s2'' (store st') = []"
    and o: "\<forall>other. other \<noteq> ''s2'' \<longrightarrow>
           getServer other (store st') = getServer other (store ?st) \<and>
           getToolsByServer other (store st') = getToolsByServer other (store ?st) \<and>
           conn_table st' other = conn_table ?st other"
    by (elim exE conjE)
  from o [THEN spec, of "''s1''", THEN mp, OF other]
  have c: "conn_table st' ''s1'' = conn_table ?st ''s1''"
    by (elim conjE)
  from delete_server_cascades [of "''ghost''" ?st, THEN mp, OF ne']
  obtain st'' where r': "POST_delete_server ''ghost'' ?st = (ServerDeleted ''Server deleted successfully'', st'')"
    and n: "nothingUnder ''ghost'' ?st \<longrightarrow> st'' = ?st"
    by (elim exE conjE)
  from n absent have same: "st'' = ?st" by (rule mp)
  have f1: "fst (POST_delete_server ''s2'' ?st) = ServerDeleted ''Server deleted successfully''"
    and s1: "snd (POST_delete_server ''s2'' ?st) = st'"
    by (simp_all only: r fst_conv snd_conv)
  have s2: "snd (POST_delete_server ''ghost'' ?st) = ?st"
    by (simp only: r' snd_conv same)
  show ?thesis
    using g t c by (intro conjI ne other stored f1 absent s2) (simp_all only: s1)
qed

section \<open>The commits of a tool replacement\<close>

lemma saveTools_last_commit:
  "snd (saveTools S ts d) = last (saveTools_commits S ts d)"
  by (simp add: saveTools_def saveTools_commits_def transaction_def Let_def split: sum.splits)

lemma saveTools_first_commit_empty:
  "getToolsByServer S (hd (saveTools_commits S ts d)) = []"
  by (simp add: saveTools_commits_def Let_def getToolsByServer_def getToolsByServer_stmt_def
      deleteToolsByServer_stmt_def)

text \<open>
  Claim C3 says that the delete and the inserts of \<open>saveTools\<close> form one atomic
  transaction. In the code only the inserts are wrapped in \<open>db.transaction\<close>; the delete
  runs before it as a statement of its own. Replacing the one tool of server \<open>s2\<close> by a
  new one commits two states: in the first, the server has no tools at all.
\<close>

theorem saveTools_commits_empty_tool_set:
  "getToolsByServer ''s2'' sampleDb = [mkTool ''k'' ''kept''] \<and>
   map (getToolsByServer ''s2'') (saveTools_commits ''s2'' [mkTool ''c'' ''new''] sampleDb)
     = [[], [mkTool ''c'' ''new'']]"
  by (simp add: saveTools_commits_def Let_def getToolsByServer_def getToolsByServer_stmt_def
      deleteToolsByServer_stmt_def insertTool_stmt_def server_exists_def
      sampleDb_def serverRow_def toolRow_def mkTool_def)

section \<open>Properties of connecting\<close>

lemma raceTimeout_timer:
  "timerFiresFirst p \<Longrightarrow> raceTimeout p msg = (10000, Rejected (newError msg))"
  by (auto simp: timerFiresFirst_def raceTimeout_def split: promise.splits)

text \<open>
  Claim C4. In both variants the connect call is raced against a timer of 10000 ms.
  Whenever the timer fires before the connect attempt settles (the attempt never settles,
  or settles later than 10000 ms), \<open>createMCPConnection\<close> fails at 10000 ms with the
  timeout error of its variant, and the test-connection handler answers at 10000 ms with
  the timeout failure, leaves no entry for the server id in the connection table (an
  older entry was removed before connecting) and does not touch the store. Time is the
  number of milliseconds since the connect call, and the timer is taken to fire at its
  nominal delay.
\<close>

theorem connect_timeout:
  assumes "timerFiresFirst (connect (new_client e))"
  shows "(transport (srv_config server) = Some Stdio
            \<and> command (srv_config server) \<noteq> None \<and> command (srv_config server) \<noteq> Some [] \<longrightarrow>
          createMCPConnection server e = (10000, Inl (newError ''STDIO connection timeout'')) \<and>
          fst (POST_test_connection server e st)
            = Some (10000, ErrorResponse 400 ''STDIO connection failed: Connection timeout'' None) \<and>
          \<not> hasConnection (srv_id server) (conn_table (snd (POST_test_connection server e st))) \<and>
          store (snd (POST_test_connection server e st)) = store st) \<and>
         (transport (srv_config server) = Some Sse
            \<and> url (srv_config server) \<noteq> None \<and> url (srv_config server) \<noteq> Some [] \<and> url_parses e \<longrightarrow>
          createMCPConnection server e = (10000, Inl (newError ''SSE connection timeout'')) \<and>
          fst (POST_test_connection server e st)
            = Some (10000, ErrorResponse 400 ''SSE connection failed: SSE connection timeout'' None) \<and>
          \<not> hasConnection (srv_id server) (conn_table (snd (POST_test_connection server e st))) \<and>
          store (snd (POST_test_connection server e st)) = store st)"
proof -
  obtain log where d: "deleteConnection (srv_id server) (conn_table st)
      = Inr (log, (conn_table st)(srv_id server := None))"
    using deleteConnection_returns by blast
  show ?thesis
    using assms d
    by (simp add: createMCPConnection_def POST_test_connection_def raceTimeout_timer
        hasConnection_def messageOrUnknown_def newError_def)
qed

theorem connect_timeout_witness:
  "timerFiresFirst (connect (new_client (sampleEnv (sampleClient Never Never (CloseReturns Never))))) \<and>
   createMCPConnection stdioServer (sampleEnv (sampleClient Never Never (CloseReturns Never)))
     = (10000, Inl (newError ''STDIO connection timeout'')) \<and>
   fst (POST_test_connection stdioServer (sampleEnv (sampleClient Never Never (CloseReturns Never)))
          (sampleState (sampleClient Never Never (CloseReturns Never))))
     = Some (10000, ErrorResponse 400 ''STDIO connection failed: Connection timeout'' None) \<and>
   hasConnection ''s1'' (conn_table (sampleState (sampleClient Never Never (CloseReturns Never)))) \<and>
   \<not> hasConnection (srv_id stdioServer)
       (conn_table (snd (POST_test_connection stdioServer
          (sampleEnv (sampleClient Never Never (CloseReturns Never)))
          (sampleState (sampleClient Never Never (CloseReturns Never)))))) \<and>
   createMCPConnection sseServer (sampleEnv (sampleClient Never Never (CloseReturns Never)))
     = (10000, Inl (newError ''SSE connection timeout'')) \<and>
   fst (POST_test_connection sseServer (sampleEnv (sampleClient Never Never (CloseReturns Never)))
          (sampleState (sampleClient Never Never (CloseReturns Never))))
     = Some (10000, ErrorResponse 400 ''SSE connection failed: SSE connection timeout'' None) \<and>
   \<not> hasConnection (srv_id sseServer)
       (conn_table (snd (POST_test_connection sseServer
          (sampleEnv (sampleClient Never Never (CloseReturns Never)))
          (sampleState (sampleClient Never Never (CloseReturns Never))))))"
proof -
  let ?e = "sampleEnv (sampleClient Never Never (CloseReturns Never))"
  let ?st = "sampleState (sampleClient Never Never (CloseReturns Never))"
  have slow: "timerFiresFirst (connect (new_client ?e))"
    by (simp add: timerFiresFirst_def sampleEnv_def sampleClient_def)
  have stdio: "transport (srv_config stdioServer) = Some Stdio
      \<and> command (srv_config stdioServer) \<noteq> None \<and> command (srv_config stdioServer) \<noteq> Some []"
    by (simp add: stdioServer_def stdioConfig_def)
  have sse: "transport (srv_config sseServer) = Some Sse
      \<and> url (srv_config sseServer) \<noteq> None \<and> url (srv_config sseServer) \<noteq> Some [] \<and> url_parses ?e"
    by (simp add: sseServer_def sampleEnv_def)
  have before: "hasConnection ''s1'' (conn_table ?st)"
    by (simp add: hasConnection_def sampleState_def)
  note a = connect_timeout [OF slow, of stdioServer ?st, THEN conjunct1, THEN mp, OF stdio]
  note b = connect_timeout [OF slow, of sseServer ?st, THEN conjunct2, THEN mp, OF sse]
  show ?thesis
    by (intro conjI slow before a [THEN conjunct1] a [THEN conjunct2, THEN conjunct1]
        a [THEN conjunct2, THEN conjunct2, THEN conjunct1]
        b [THEN conjunct1] b [THEN conjunct2, THEN conjunct1]
        b [THEN conjunct2, THEN conjunct2, THEN conjunct1])
qed

section \<open>Properties of the schema translator\<close>

lemma assign_keys: "fst ` set (assign k v xs) = insert k (fst ` set xs)"
proof (induction xs)
  case Nil
  then show ?case by simp
next
  case (Cons x xs)
  obtain k' v' where x: "x = (k', v')" by (cases x)
  show ?case
  proof (cases "k' = k")
    case True
    then show ?thesis by (simp add: x)
  next
    case False
    then show ?thesis using Cons.IH by (simp add: x insert_commute)
  qed
qed

lemma assign_distinct: "distinct (map fst xs) \<Longrightarrow> distinct (map fst (assign k v xs))"
proof (induction xs)
  case Nil
  then show ?case by simp
next
  case (Cons x xs)
  obtain k' v' where x: "x = (k', v')" by (cases x)
  show ?case
  proof (cases "k' = k")
    case True
    then show ?thesis using Cons.prems by (simp add: x)
  next
    case False
    then show ?thesis using Cons by (simp add: x assign_keys)
  qed
qed

lemma assign_entries:
  "distinct (map fst xs) \<Longrightarrow> set (assign k v xs) = insert (k, v) {e \<in> set xs. fst e \<noteq> k}"
proof (induction xs)
  case Nil
  then show ?case by simp
next
  case (Cons x xs)
  obtain k' v' where x: "x = (k', v')" by (cases x)
  show ?case
  proof (cases "k' = k")
    case True
    then have "\<forall>e \<in> set xs. fst e \<noteq> k"
      using Cons.prems by (auto simp: x)
    then show ?thesis using True by (auto simp: x)
  next
    case False
    then show ?thesis using Cons by (auto simp: x)
  qed
qed

lemma fold_assign_distinct:
  "distinct (map fst acc) \<Longrightarrow> distinct (map fst (foldl (\<lambda>obj (k, v). assign k v obj) acc xs))"
  by (induction xs arbitrary: acc) (auto simp: assign_distinct)

lemma fold_assign_keys:
  "fst ` set (foldl (\<lambda>obj (k, v). assign k v obj) acc xs) = fst ` set acc \<union> fst ` set xs"
proof (induction xs arbitrary: acc)
  case Nil
  then show ?case by simp
next
  case (Cons x xs)
  obtain k v where x: "x = (k, v)" by (cases x)
  have "fst ` set (foldl (\<lambda>obj (k, v). assign k v obj) (assign k v acc) xs)
          = fst ` set (assign k v acc) \<union> fst ` set xs"
    by (rule Cons.IH)
  also have "\<dots> = insert k (fst ` set acc) \<union> fst ` set xs"
    by (simp only: assign_keys)
  also have "\<dots> = fst ` set acc \<union> fst ` set (x # xs)"
    by (auto simp: x)
  finally show ?case by (simp add: x)
qed

lemma fold_assign_entries:
  "distinct (map fst acc) \<Longrightarrow>
   set (foldl (\<lambda>obj (k, v). assign k v obj) acc xs)
     \<subseteq> set xs \<union> {e \<in> set acc. fst e \<notin> fst ` set xs}"
proof (induction xs arbitrary: acc)
  case Nil
  then show ?case by simp
next
  case (Cons x xs)
  obtain k v where x: "x = (k, v)" by (cases x)
  have d: "distinct (map fst (assign k v acc))"
    using Cons.prems by (rule assign_distinct)
  have "set (foldl (\<lambda>obj (k, v). assign k v obj) (assign k v acc) xs)
          \<subseteq> set xs \<union> {e \<in> set (assign k v acc). fst e \<notin> fst ` set xs}"
    by (rule Cons.IH [OF d])
  also have "\<dots> \<subseteq> set (x # xs) \<union> {e \<in> set acc. fst e \<notin> fst ` set (x # xs)}"
    using Cons.prems by (auto simp: x assign_entries)
  finally show ?case by (simp add: x)
qed

lemma fold_fieldFor_keys:
  "fst ` set (foldl (\<lambda>obj (key, prop). assign key (fieldFor prop) obj) acc props)
     = fst ` set acc \<union> fst ` set props"
proof (induction props arbitrary: acc)
  case Nil
  then show ?case by simp
next
  case (Cons x xs)
  obtain k v where x: "x = (k, v)" by (cases x)
  have "fst ` set (foldl (\<lambda>obj (key, prop). assign key (fieldFor prop) obj)
                     (assign k (fieldFor v) acc) xs)
          = fst ` set (assign k (fieldFor v) acc) \<union> fst ` set xs"
    by (rule Cons.IH)
  also have "\<dots> = insert k (fst ` set acc) \<union> fst ` set xs"
    by (simp only: assign_keys)
  also have "\<dots> = fst ` set acc \<union> fst ` set (x # xs)"
    by (auto simp: x)
  finally show ?case by (simp add: x)
qed

text \<open>Every validator of the translated object schema is optional.\<close>

lemma mcpSchemaToZod_all_optional:
  assumes "schema_type s = Some (JStr ''object'')" and "schema_properties s = Some props"
    and "set (case schema_required s of None \<Rightarrow> [] | Some r \<Rightarrow> r) \<subseteq> fst ` set props"
  shows "\<exists>shape. mcpSchemaToZod s = ZObject shape \<and>
           (\<forall>entry \<in> set shape. \<exists>g. snd entry = Some (ZOptional g))"
proof -
  define req where "req = (case schema_required s of None \<Rightarrow> [] | Some r \<Rightarrow> r)"
  define zp where "zp = foldl (\<lambda>obj (key, prop). assign key (fieldFor prop) obj) [] props"
  define opt where "opt = partial (map (\<lambda>(k, f). (k, Some f)) zp)"
  define rq where "rq = fromEntries (map (\<lambda>key. (key, map_of zp key)) req)"
  have m: "mcpSchemaToZod s = ZObject (spread rq opt)"
    using assms(1,2) by (simp add: mcpSchemaToZod_def merge_def req_def zp_def opt_def rq_def Let_def)
  have kzp: "fst ` set zp = fst ` set props"
    unfolding zp_def by (simp add: fold_fieldFor_keys)
  have kopt: "fst ` set opt = fst ` set props"
    unfolding opt_def partial_def using kzp by (force simp: image_iff)
  have popt: "\<forall>entry \<in> set opt. \<exists>g. snd entry = Some (ZOptional g)"
    unfolding opt_def partial_def by auto
  have drq: "distinct (map fst rq)"
    unfolding rq_def fromEntries_def by (rule fold_assign_distinct) simp
  have r3: "set req \<subseteq> fst ` set props"
    using assms(3) by (simp only: req_def)
  have "fst ` set rq = set req"
    unfolding rq_def fromEntries_def by (simp add: fold_assign_keys image_image)
  with r3 have krq: "fst ` set rq \<subseteq> fst ` set props"
    by simp
  have "set (spread rq opt) \<subseteq> set opt \<union> {e \<in> set rq. fst e \<notin> fst ` set opt}"
    unfolding spread_def by (rule fold_assign_entries [OF drq])
  also have "\<dots> \<subseteq> set opt"
    using krq kopt by auto
  finally have "set (spread rq opt) \<subseteq> set opt" .
  with popt have "\<forall>entry \<in> set (spread rq opt). \<exists>g. snd entry = Some (ZOptional g)"
    by blast
  with m show ?thesis by blast
qed

lemma parse_all_optional_empty:
  assumes "\<forall>entry \<in> set shape. \<exists>g. snd entry = Some (ZOptional g)"
  shows "parse (ZObject shape) [] = Inr []"
proof -
  have none: "\<not> (\<exists>entry \<in> set shape. snd entry = None)"
    using assms by force
  have "filter (\<lambda>(k, f). \<not> accepts (the f) (map_of ([] :: (string \<times> json) list) k)) shape = []"
    using assms by (force simp: filter_empty_conv)
  moreover have "concat (map (\<lambda>(k, f). case map_of ([] :: (string \<times> json) list) k of
                                  None \<Rightarrow> [] | Some v \<Rightarrow> [(k, v)]) shape) = []"
    by (induction shape) auto
  ultimately show ?thesis
    using none by (simp add: parse_def)
qed

lemma required_never_enforced:
  assumes "schema_type s = Some (JStr ''object'')" and "schema_properties s = Some props"
    and "set (case schema_required s of None \<Rightarrow> [] | Some r \<Rightarrow> r) \<subseteq> fst ` set props"
  shows "parse (mcpSchemaToZod s) [] = Inr []"
  using mcpSchemaToZod_all_optional [OF assms] parse_all_optional_empty by auto

text \<open>
  Claim C1 says that validating \<open>{}\<close> against the translation of
  \<open>{type: 'object', properties: {a: {type: 'string'}}, required: ['a']}\<close> fails because
  \<open>a\<close> is missing. The translator merges the optional schema into the required one,
  \<open>requiredSchema.merge(optionalSchema)\<close>, and in a merge the second schema's validator
  replaces the first one's for every key they share: the translated schema has \<open>a\<close>
  optional and accepts \<open>{}\<close>. (By \<open>required_never_enforced\<close> the same holds for every
  object schema whose required keys are declared properties.) Extra fields are not
  rejected, as the claim says.
\<close>

theorem required_field_not_enforced:
  "mcpSchemaToZod schemaA = ZObject [(''a'', Some (ZOptional ZString))] \<and>
   parse (mcpSchemaToZod schemaA) [] = Inr [] \<and>
   parse (mcpSchemaToZod schemaA) [(''a'', JStr ''x''), (''b'', JStr ''extra'')] = Inr [(''a'', JStr ''x'')]"
  by (simp add: mcpSchemaToZod_def schemaA_def fieldFor_def partial_def fromEntries_def
      spread_def merge_def parse_def)

end
